theory Spec2Isabelle
  imports Main "HOL-Library.Word" "HOL-Library.Char_ord" "HOL-Library.List_Lexorder"
begin

section \<open>Values shared by the service packages\<close>

text \<open>
  A \<^verbatim>\<open>uuid.UUID\<close> is sixteen bytes; it is kept as one 128-bit word (byte 0 is the
  most significant one), and \<^verbatim>\<open>uuid.Nil\<close> is the word 0.  Its \<^verbatim>\<open>String()\<close> form is the
  usual 8-4-4-4-12 lower-case hexadecimal text, which is what \<^verbatim>\<open>%s\<close> prints.
\<close>

type_synonym uuid = "128 word"

definition uuid_Nil :: uuid where
  "uuid_Nil = 0"

definition hex_digit :: "nat \<Rightarrow> char" where
  "hex_digit n = ''0123456789abcdef'' ! (n mod 16)"

definition uuid_hex :: "uuid \<Rightarrow> string" where
  "uuid_hex u = map (\<lambda>i. hex_digit (unat (take_bit 4 (drop_bit (4 * (31 - i)) u)))) [0..<32]"

definition uuid_String :: "uuid \<Rightarrow> string" where
  "uuid_String u =
     (let h = uuid_hex u
      in take 8 h @ ''-'' @ take 4 (drop 8 h) @ ''-'' @ take 4 (drop 12 h) @ ''-'' @
         take 4 (drop 16 h) @ ''-'' @ drop 20 h)"

text \<open>
  Decimal text of an integer, as \<^verbatim>\<open>%d\<close> prints it (the digits below ten are the first
  ten characters of \<open>hex_digit\<close>).
\<close>

fun nat_digits :: "nat \<Rightarrow> string" where
  "nat_digits n =
     (if n < 10 then [hex_digit n] else nat_digits (n div 10) @ [hex_digit (n mod 10)])"

definition itoa :: "int \<Rightarrow> string" where
  "itoa i = (if i < 0 then ''-'' @ nat_digits (nat (- i)) else nat_digits (nat i))"

subsection \<open>service/error.go\<close>

text \<open>
  A Go \<^verbatim>\<open>error\<close> value on the paths of the repository is an \<^verbatim>\<open>*APIError\<close> (status code
  and message; its \<^verbatim>\<open>Data\<close> field is nil in every error built below), one of the two
  sentinels of \<^verbatim>\<open>database/sql\<close> that the code can meet, or an opaque failure of the
  driver.  A nil error is \<open>None\<close>.
\<close>

datatype error =
    APIError (StatusCode: int) (Message: string)
  | ErrNoRows
  | ErrTxDone
  | DriverError string

definition Error :: "int \<Rightarrow> string \<Rightarrow> error" where
  "Error statusCode message = APIError statusCode message"

definition ErrPermission :: error where
  "ErrPermission = Error 403 ''Permission denied.''"

definition ErrNotFound :: "uuid \<Rightarrow> error" where
  "ErrNotFound i = APIError 404 (''ID '' @ [CHR 0x27] @ uuid_String i @ [CHR 0x27] @ '' not found.'')"

definition ErrorStatusCode :: "error \<Rightarrow> int" where
  "ErrorStatusCode err = (case err of APIError c m \<Rightarrow> c | _ \<Rightarrow> 500)"

subsection \<open>The caller's identity\<close>

text \<open>
  Modelled from the spec: \<^verbatim>\<open>service.UserIDFromContext\<close> is not among the sources.  The
  spec describes a read-only association from the current caller to an identity, and
  \<^verbatim>\<open>service/log.go\<close> compares its result with \<^verbatim>\<open>uuid.Nil\<close>, the value a context
  without an identity gives.
\<close>

record Context =
  ctx_UserID :: "uuid option"

definition UserIDFromContext :: "Context \<Rightarrow> uuid" where
  "UserIDFromContext ctx = (case ctx_UserID ctx of None \<Rightarrow> uuid_Nil | Some u \<Rightarrow> u)"

section \<open>The todo package: data\<close>

text \<open>
  Modelled from the spec: the declarations of \<^verbatim>\<open>Todo\<close>, \<^verbatim>\<open>TodoFilter\<close>, \<^verbatim>\<open>TodoUpdate\<close>
  and of the two-field wrapper with \<^verbatim>\<open>Defined\<close> and \<^verbatim>\<open>Value\<close> are not among the
  sources; the fields are the ones \<^verbatim>\<open>repository.go\<close> reads and writes.  An instant is a
  count of microseconds since the epoch (the resolution of the store), a nullable
  due date is an \<open>option\<close>, priority and the pagination bounds are integers.
\<close>

type_synonym time = int

record 'a FieldFilter =
  Defined :: bool
  Value :: 'a

record Todo =
  ID :: uuid
  UserID :: uuid
  Subject :: string
  Description :: string
  Priority :: int
  DueDate :: "time option"
  Completed :: bool
  CreatedAt :: time
  UpdatedAt :: time

record TodoFilter =
  filter_ID :: "uuid FieldFilter"
  filter_UserID :: "uuid FieldFilter"
  filter_Priority :: "int FieldFilter"
  filter_DueDate :: "time option FieldFilter"
  filter_Completed :: "bool FieldFilter"
  Limit :: int
  Offset :: int

record TodoUpdate =
  update_Subject :: "string FieldFilter"
  update_Description :: "string FieldFilter"
  update_Priority :: "int FieldFilter"
  update_DueDate :: "time option FieldFilter"
  update_Completed :: "bool FieldFilter"

section \<open>The store\<close>

text \<open>
  The SQL that \<^verbatim>\<open>repository.go\<close> sends is kept as data: a bound argument is an
  \<open>sqlval\<close>, a conjunct of the WHERE clause is a \<open>cond\<close> whose text is \<open>render_cond\<close>,
  and a whole statement is a \<open>stmt\<close>.
\<close>

datatype sqlval = VUuid uuid | VText string | VInt int | VTime time | VDate int | VBool bool | VNull

datatype column =
  col_id | col_user_id | col_subject | col_description | col_priority | col_due_date |
  col_completed | col_created_at | col_updated_at

fun column_name :: "column \<Rightarrow> string" where
  "column_name col_id = ''id''"
| "column_name col_user_id = ''user_id''"
| "column_name col_subject = ''subject''"
| "column_name col_description = ''description''"
| "column_name col_priority = ''priority''"
| "column_name col_due_date = ''due_date''"
| "column_name col_completed = ''completed''"
| "column_name col_created_at = ''created_at''"
| "column_name col_updated_at = ''updated_at''"

datatype cond =
    CondTrue
  | CondEq column nat
  | CondIsNull column
  | CondDateEq column nat

fun render_cond :: "cond \<Rightarrow> string" where
  "render_cond CondTrue = ''TRUE''"
| "render_cond (CondEq c n) = column_name c @ '' = $'' @ itoa (int n)"
| "render_cond (CondIsNull c) = column_name c @ '' IS NULL''"
| "render_cond (CondDateEq c n) = column_name c @ ''::date = $'' @ itoa (int n) @ ''::date''"

text \<open>The LIMIT and OFFSET pieces: the empty string when absent.\<close>

fun render_limit :: "int option \<Rightarrow> string" where
  "render_limit None = []"
| "render_limit (Some n) = '' LIMIT '' @ itoa n @ '' ''"

fun render_offset :: "int option \<Rightarrow> string" where
  "render_offset None = []"
| "render_offset (Some n) = '' OFFSET '' @ itoa n @ '' ''"

fun join :: "string list \<Rightarrow> string \<Rightarrow> string" where
  "join [] sep = []"
| "join [x] sep = x"
| "join (x # y # ys) sep = x @ sep @ join (y # ys) sep"

datatype stmt =
    StBegin
  | StCommit
  | StRollback
  | StSelectWhere "cond list" column "int option" "int option" "sqlval list"
  | StSelectById uuid
  | StSelectForUpdate uuid
  | StInsert Todo
  | StUpdate string string int "time option" bool time uuid
  | StDelete uuid

text \<open>
  The database: the committed rows of table \<^verbatim>\<open>todo\<close> in insertion order, the rows as
  the open transaction sees them (\<open>None\<close> when no transaction is open), the outcomes
  the driver will give to the next calls (\<open>Some m\<close> makes the call fail with the
  opaque error \<open>DriverError m\<close> before it touches a row; past the end of the list
  every call goes through), and
  the statements sent so far.
\<close>

record DB =
  todo_table :: "Todo list"
  tx_table :: "Todo list option"
  faults :: "string option list"
  sent :: "stmt list"

definition driver_call :: "stmt \<Rightarrow> DB \<Rightarrow> error option \<times> DB" where
  "driver_call s db =
     (case faults db of
        [] \<Rightarrow> (None, db\<lparr>sent := sent db @ [s]\<rparr>)
      | f # fs \<Rightarrow> (map_option DriverError f, db\<lparr>faults := fs, sent := sent db @ [s]\<rparr>))"

text \<open>The next \<open>n\<close> calls of the driver meet no failure of the store.\<close>

definition undisturbed :: "nat \<Rightarrow> DB \<Rightarrow> bool" where
  "undisturbed n db = list_all (\<lambda>f. f = None) (take n (faults db))"

subsection \<open>Evaluating a WHERE clause on a row\<close>

fun col_val :: "column \<Rightarrow> Todo \<Rightarrow> sqlval" where
  "col_val col_id r = VUuid (ID r)"
| "col_val col_user_id r = VUuid (UserID r)"
| "col_val col_subject r = VText (Subject r)"
| "col_val col_description r = VText (Description r)"
| "col_val col_priority r = VInt (Priority r)"
| "col_val col_due_date r = (case DueDate r of None \<Rightarrow> VNull | Some t \<Rightarrow> VTime t)"
| "col_val col_completed r = VBool (Completed r)"
| "col_val col_created_at r = VTime (CreatedAt r)"
| "col_val col_updated_at r = VTime (UpdatedAt r)"

text \<open>
  The cast \<^verbatim>\<open>::date\<close> keeps the calendar day of an instant and drops the time of day
  (days are counted in the session's zone, taken to be UTC); NULL stays NULL.
\<close>

definition usec_per_day :: int where
  "usec_per_day = 86400000000"

definition calendar_day :: "time \<Rightarrow> int" where
  "calendar_day t = t div usec_per_day"

fun to_date :: "sqlval \<Rightarrow> sqlval" where
  "to_date (VTime t) = VDate (calendar_day t)"
| "to_date v = v"

text \<open>SQL equality: a comparison with NULL is not true.\<close>

definition sql_eq :: "sqlval \<Rightarrow> sqlval \<Rightarrow> bool" where
  "sql_eq a b = (a \<noteq> VNull \<and> b \<noteq> VNull \<and> a = b)"

definition param :: "sqlval list \<Rightarrow> nat \<Rightarrow> sqlval option" where
  "param args n = (if 1 \<le> n \<and> n \<le> length args then Some (args ! (n - 1)) else None)"

fun cond_bound :: "sqlval list \<Rightarrow> cond \<Rightarrow> bool" where
  "cond_bound args CondTrue = True"
| "cond_bound args (CondEq c n) = (param args n \<noteq> None)"
| "cond_bound args (CondIsNull c) = True"
| "cond_bound args (CondDateEq c n) = (param args n \<noteq> None)"

fun holds :: "sqlval list \<Rightarrow> Todo \<Rightarrow> cond \<Rightarrow> bool" where
  "holds args r CondTrue = True"
| "holds args r (CondEq c n) =
     (case param args n of None \<Rightarrow> False | Some v \<Rightarrow> sql_eq (col_val c r) v)"
| "holds args r (CondIsNull c) = (col_val c r = VNull)"
| "holds args r (CondDateEq c n) =
     (case param args n of None \<Rightarrow> False | Some v \<Rightarrow> sql_eq (to_date (col_val c r)) (to_date v))"

text \<open>
  ORDER BY on a text column, ascending: strings are compared byte by byte, and rows
  with equal keys keep their stored order.  Only the two text columns are sort keys
  here; any other column leaves the order as it is.
\<close>

fun order_by :: "column \<Rightarrow> Todo list \<Rightarrow> Todo list" where
  "order_by col_subject rows = sort_key Subject rows"
| "order_by col_description rows = sort_key Description rows"
| "order_by c rows = rows"

fun apply_offset :: "int option \<Rightarrow> 'a list \<Rightarrow> 'a list" where
  "apply_offset None rows = rows"
| "apply_offset (Some n) rows = drop (nat n) rows"

fun apply_limit :: "int option \<Rightarrow> 'a list \<Rightarrow> 'a list" where
  "apply_limit None rows = rows"
| "apply_limit (Some n) rows = take (nat n) rows"

subsection \<open>The calls of \<^verbatim>\<open>database/sql\<close> that the repository makes\<close>

text \<open>
  The SELECT of \<^verbatim>\<open>GetAll\<close>: the rows that satisfy every conjunct, ordered, then
  OFFSET, then LIMIT.  A placeholder without an argument is an error of the store.
\<close>

definition QueryContext ::
  "DB \<Rightarrow> cond list \<Rightarrow> column \<Rightarrow> int option \<Rightarrow> int option \<Rightarrow> sqlval list
     \<Rightarrow> (error + Todo list) \<times> DB" where
  "QueryContext db wheres ord limit offset args =
     (case driver_call (StSelectWhere wheres ord limit offset args) db of
        (Some e, db') \<Rightarrow> (Inl e, db')
      | (None, db') \<Rightarrow>
          if \<not> list_all (cond_bound args) wheres then (Inl (DriverError ''bind''), db')
          else (Inr (apply_limit limit (apply_offset offset (order_by ord
                  (filter (\<lambda>r. list_all (holds args r) wheres) (todo_table db'))))), db'))"

text \<open>\<^verbatim>\<open>SELECT ... WHERE id = $1\<close> outside a transaction, scanned into a \<^verbatim>\<open>Todo\<close>.\<close>

definition QueryRowContext :: "DB \<Rightarrow> uuid \<Rightarrow> (error + Todo) \<times> DB" where
  "QueryRowContext db i =
     (case driver_call (StSelectById i) db of
        (Some e, db') \<Rightarrow> (Inl e, db')
      | (None, db') \<Rightarrow>
          (case find (\<lambda>r. ID r = i) (todo_table db') of
             None \<Rightarrow> (Inl ErrNoRows, db')
           | Some r \<Rightarrow> (Inr r, db')))"

text \<open>
  The INSERT of \<^verbatim>\<open>Create\<close>.  Modelled from the spec: the schema is not among the
  sources; the spec makes the ID a unique key and a constraint violation a storage
  error, so a second row with a stored ID is refused.
\<close>

definition ExecContext_insert :: "DB \<Rightarrow> Todo \<Rightarrow> error option \<times> DB" where
  "ExecContext_insert db todo =
     (case driver_call (StInsert todo) db of
        (Some e, db') \<Rightarrow> (Some e, db')
      | (None, db') \<Rightarrow>
          if ID todo \<in> set (map ID (todo_table db'))
          then (Some (DriverError ''unique_violation''), db')
          else (None, db'\<lparr>todo_table := todo_table db' @ [todo]\<rparr>))"

text \<open>
  A transaction works on its own copy of the rows; \<^verbatim>\<open>Commit\<close> installs the copy and
  \<^verbatim>\<open>Rollback\<close> drops it.  A call on a transaction that is no longer open gives
  \<^verbatim>\<open>sql.ErrTxDone\<close> and sends nothing.
\<close>

definition BeginTx :: "DB \<Rightarrow> error option \<times> DB" where
  "BeginTx db =
     (case driver_call StBegin db of
        (Some e, db') \<Rightarrow> (Some e, db')
      | (None, db') \<Rightarrow> (None, db'\<lparr>tx_table := Some (todo_table db')\<rparr>))"

definition Commit :: "DB \<Rightarrow> error option \<times> DB" where
  "Commit db =
     (case tx_table db of
        None \<Rightarrow> (Some ErrTxDone, db)
      | Some rows \<Rightarrow>
          (case driver_call StCommit db of
             (Some e, db') \<Rightarrow> (Some e, db'\<lparr>tx_table := None\<rparr>)
           | (None, db') \<Rightarrow> (None, db'\<lparr>todo_table := rows, tx_table := None\<rparr>)))"

definition Rollback :: "DB \<Rightarrow> error option \<times> DB" where
  "Rollback db =
     (case tx_table db of
        None \<Rightarrow> (Some ErrTxDone, db)
      | Some rows \<Rightarrow>
          (case driver_call StRollback db of
             (err, db') \<Rightarrow> (err, db'\<lparr>tx_table := None\<rparr>)))"

text \<open>\<^verbatim>\<open>SELECT ... WHERE id = $1 FOR UPDATE\<close> inside the transaction.\<close>

definition tx_QueryRowContext :: "DB \<Rightarrow> uuid \<Rightarrow> (error + Todo) \<times> DB" where
  "tx_QueryRowContext db i =
     (case tx_table db of
        None \<Rightarrow> (Inl ErrTxDone, db)
      | Some rows \<Rightarrow>
          (case driver_call (StSelectForUpdate i) db of
             (Some e, db') \<Rightarrow> (Inl e, db')
           | (None, db') \<Rightarrow>
               (case find (\<lambda>r. ID r = i) rows of
                  None \<Rightarrow> (Inl ErrNoRows, db')
                | Some r \<Rightarrow> (Inr r, db'))))"

text \<open>
  The result of an Exec: \<^verbatim>\<open>RowsAffected()\<close> gives a count or an error (a driver may
  not support it; this store always gives the count).
\<close>

datatype Result = Result (RowsAffected: "error + int")

definition tx_ExecContext_update ::
  "DB \<Rightarrow> string \<Rightarrow> string \<Rightarrow> int \<Rightarrow> time option \<Rightarrow> bool \<Rightarrow> time \<Rightarrow> uuid
     \<Rightarrow> (error + Result) \<times> DB" where
  "tx_ExecContext_update db subject description priority due_date completed updated_at i =
     (case tx_table db of
        None \<Rightarrow> (Inl ErrTxDone, db)
      | Some rows \<Rightarrow>
          (case driver_call
                  (StUpdate subject description priority due_date completed updated_at i) db of
             (Some e, db') \<Rightarrow> (Inl e, db')
           | (None, db') \<Rightarrow>
               (Inr (Result (Inr (int (length (filter (\<lambda>r. ID r = i) rows))))),
                db'\<lparr>tx_table := Some (map (\<lambda>r. if ID r = i
                       then r\<lparr>Subject := subject, Description := description,
                              Priority := priority, DueDate := due_date,
                              Completed := completed, UpdatedAt := updated_at\<rparr>
                       else r) rows)\<rparr>)))"

definition tx_ExecContext_delete :: "DB \<Rightarrow> uuid \<Rightarrow> (error + Result) \<times> DB" where
  "tx_ExecContext_delete db i =
     (case tx_table db of
        None \<Rightarrow> (Inl ErrTxDone, db)
      | Some rows \<Rightarrow>
          (case driver_call (StDelete i) db of
             (Some e, db') \<Rightarrow> (Inl e, db')
           | (None, db') \<Rightarrow>
               (Inr (Result (Inr (int (length (filter (\<lambda>r. ID r = i) rows))))),
                db'\<lparr>tx_table := Some (filter (\<lambda>r. ID r \<noteq> i) rows)\<rparr>)))"

section \<open>service/todo/repository.go\<close>

text \<open>
  Every method takes the context and the database and gives back its result with the
  database after the call.  \<^verbatim>\<open>time.Now()\<close> and \<^verbatim>\<open>uuid.New()\<close> are read from the
  environment, so their values are arguments (\<open>now\<close>, \<open>new_id\<close>).
\<close>

subsection \<open>GetAll\<close>

text \<open>Lines 25 to 62: the conjuncts, their arguments and the two pagination pieces.\<close>

definition GetAll_build ::
  "TodoFilter \<Rightarrow> cond list \<times> sqlval list \<times> int option \<times> int option" where
  "GetAll_build fltr =
     (let (wheres, args, argIndex) = ([CondTrue], [], 1::nat);
          (wheres, args, argIndex) =
            (let v = filter_ID fltr in
             if Defined v
             then (wheres @ [CondEq col_id argIndex], args @ [VUuid (Value v)], argIndex + 1)
             else (wheres, args, argIndex));
          (wheres, args, argIndex) =
            (let v = filter_UserID fltr in
             if Defined v
             then (wheres @ [CondEq col_user_id argIndex], args @ [VUuid (Value v)], argIndex + 1)
             else (wheres, args, argIndex));
          (wheres, args, argIndex) =
            (let v = filter_Priority fltr in
             if Defined v
             then (wheres @ [CondEq col_priority argIndex], args @ [VInt (Value v)], argIndex + 1)
             else (wheres, args, argIndex));
          (wheres, args, argIndex) =
            (let v = filter_DueDate fltr in
             if Defined v
             then (case Value v of
                     None \<Rightarrow> (wheres @ [CondIsNull col_due_date], args, argIndex)
                   | Some t \<Rightarrow>
                       (wheres @ [CondDateEq col_due_date argIndex], args @ [VTime t],
                        argIndex + 1))
             else (wheres, args, argIndex));
          (wheres, args, argIndex) =
            (let v = filter_Completed fltr in
             if Defined v
             then (wheres @ [CondEq col_completed argIndex], args @ [VBool (Value v)], argIndex + 1)
             else (wheres, args, argIndex));
          limit = (if Limit fltr > 0 then Some (Limit fltr) else None);
          offset = (if Offset fltr > 0 then Some (Offset fltr) else None)
      in (wheres, args, limit, offset))"

text \<open>
  The text after \<^verbatim>\<open>FROM todo\<close> of the statement of lines 64 to 71, for conjuncts
  \<open>wheres\<close>, an order column and the two pagination pieces.
\<close>

definition select_tail :: "cond list \<Rightarrow> column \<Rightarrow> int option \<Rightarrow> int option \<Rightarrow> string" where
  "select_tail wheres ord limit offset =
     ''WHERE '' @ join (map render_cond wheres) '' AND '' @
     '' ORDER BY '' @ column_name ord @ '' ASC'' @ render_limit limit @ render_offset offset"

definition GetAll :: "Context \<Rightarrow> DB \<Rightarrow> TodoFilter \<Rightarrow> (error + Todo list) \<times> DB" where
  "GetAll ctx db fltr =
     (case GetAll_build fltr of
        (wheres, args, limit, offset) \<Rightarrow>
          (case QueryContext db wheres col_description limit offset args of
             (Inl err, db') \<Rightarrow> (Inl err, db')
           | (Inr rows, db') \<Rightarrow> (Inr rows, db')))"

subsection \<open>Get\<close>

definition Get :: "Context \<Rightarrow> DB \<Rightarrow> uuid \<Rightarrow> (error + Todo) \<times> DB" where
  "Get ctx db i =
     (case QueryRowContext db i of
        (Inl err, db') \<Rightarrow>
          if err = ErrNoRows then (Inl (ErrNotFound i), db') else (Inl err, db')
      | (Inr todo, db') \<Rightarrow> (Inr todo, db'))"

subsection \<open>Create\<close>

text \<open>The caller's \<^verbatim>\<open>*Todo\<close> is written to, so the stamped record is part of the result.\<close>

definition Create ::
  "Context \<Rightarrow> uuid \<Rightarrow> time \<Rightarrow> DB \<Rightarrow> Todo \<Rightarrow> (error option \<times> Todo) \<times> DB" where
  "Create ctx new_id now db todo =
     (let todo = todo\<lparr>ID := new_id\<rparr>;
          todo = todo\<lparr>UserID := UserIDFromContext ctx\<rparr>;
          todo = todo\<lparr>CreatedAt := now\<rparr>;
          todo = todo\<lparr>UpdatedAt := CreatedAt todo\<rparr>
      in case ExecContext_insert db todo of (err, db') \<Rightarrow> ((err, todo), db'))"

subsection \<open>Update and Delete\<close>

definition getTodoForUpdate :: "Context \<Rightarrow> DB \<Rightarrow> uuid \<Rightarrow> (error + Todo) \<times> DB" where
  "getTodoForUpdate ctx tx i =
     (case tx_QueryRowContext tx i of
        (Inl err, tx') \<Rightarrow>
          if err = ErrNoRows then (Inl (ErrNotFound i), tx') else (Inl err, tx')
      | (Inr todo, tx') \<Rightarrow> (Inr todo, tx'))"

text \<open>Lines 221 to 241: the set fields of the patch overwrite the loaded record.\<close>

definition apply_update :: "TodoUpdate \<Rightarrow> Todo \<Rightarrow> Todo \<times> bool" where
  "apply_update update todo =
     (let updated = False;
          (todo, updated) =
            (let v = update_Subject update in
             if Defined v then (todo\<lparr>Subject := Value v\<rparr>, True) else (todo, updated));
          (todo, updated) =
            (let v = update_Description update in
             if Defined v then (todo\<lparr>Description := Value v\<rparr>, True) else (todo, updated));
          (todo, updated) =
            (let v = update_Priority update in
             if Defined v then (todo\<lparr>Priority := Value v\<rparr>, True) else (todo, updated));
          (todo, updated) =
            (let v = update_DueDate update in
             if Defined v then (todo\<lparr>DueDate := Value v\<rparr>, True) else (todo, updated));
          (todo, updated) =
            (let v = update_Completed update in
             if Defined v then (todo\<lparr>Completed := Value v\<rparr>, True) else (todo, updated))
      in (todo, updated))"

definition updateTodo ::
  "Context \<Rightarrow> time \<Rightarrow> DB \<Rightarrow> uuid \<Rightarrow> TodoUpdate \<Rightarrow> error option \<times> DB" where
  "updateTodo ctx now tx i update =
     (case getTodoForUpdate ctx tx i of
        (Inl err, tx1) \<Rightarrow> (Some err, tx1)
      | (Inr todo, tx1) \<Rightarrow>
          if UserID todo \<noteq> UserIDFromContext ctx then (Some ErrPermission, tx1)
          else
            (case apply_update update todo of
               (todo, updated) \<Rightarrow>
                 if \<not> updated then (None, tx1)
                 else
                   (let todo = todo\<lparr>UpdatedAt := now\<rparr> in
                    case tx_ExecContext_update tx1 (Subject todo) (Description todo)
                           (Priority todo) (DueDate todo) (Completed todo) (UpdatedAt todo) i of
                      (Inl err, tx2) \<Rightarrow> (Some err, tx2)
                    | (Inr result, tx2) \<Rightarrow>
                        (case RowsAffected result of
                           Inl err \<Rightarrow> (Some err, tx2)
                         | Inr rowsAffected \<Rightarrow>
                             if rowsAffected = 0 then (Some (ErrNotFound i), tx2)
                             else (None, tx2)))))"

definition deleteTodo :: "Context \<Rightarrow> DB \<Rightarrow> uuid \<Rightarrow> error option \<times> DB" where
  "deleteTodo ctx tx i =
     (case getTodoForUpdate ctx tx i of
        (Inl err, tx1) \<Rightarrow> (Some err, tx1)
      | (Inr todo, tx1) \<Rightarrow>
          if UserID todo \<noteq> UserIDFromContext ctx then (Some ErrPermission, tx1)
          else
            (case tx_ExecContext_delete tx1 i of
               (Inl err, tx2) \<Rightarrow> (Some err, tx2)
             | (Inr result, tx2) \<Rightarrow>
                 (case RowsAffected result of
                    Inl err \<Rightarrow> (Some err, tx2)
                  | Inr rowsAffected \<Rightarrow>
                      if rowsAffected = 0 then (Some (ErrNotFound i), tx2)
                      else (None, tx2))))"

text \<open>
  \<^verbatim>\<open>defer tx.Rollback()\<close> runs on every return after a successful \<^verbatim>\<open>BeginTx\<close>, its
  own error dropped; after a \<^verbatim>\<open>Commit\<close> it finds the transaction done.
\<close>

definition Update ::
  "Context \<Rightarrow> time \<Rightarrow> DB \<Rightarrow> uuid \<Rightarrow> TodoUpdate \<Rightarrow> error option \<times> DB" where
  "Update ctx now db i update =
     (case BeginTx db of
        (Some err, db1) \<Rightarrow> (Some err, db1)
      | (None, tx) \<Rightarrow>
          (case updateTodo ctx now tx i update of
             (Some err, tx') \<Rightarrow> (Some err, snd (Rollback tx'))
           | (None, tx') \<Rightarrow>
               (case Commit tx' of (err, db2) \<Rightarrow> (err, snd (Rollback db2)))))"

definition Delete :: "Context \<Rightarrow> DB \<Rightarrow> uuid \<Rightarrow> error option \<times> DB" where
  "Delete ctx db i =
     (case BeginTx db of
        (Some err, db1) \<Rightarrow> (Some err, db1)
      | (None, tx) \<Rightarrow>
          (case deleteTodo ctx tx i of
             (Some err, tx') \<Rightarrow> (Some err, snd (Rollback tx'))
           | (None, tx') \<Rightarrow>
               (case Commit tx' of (err, db2) \<Rightarrow> (err, snd (Rollback db2)))))"

section \<open>Auxiliary notions for the proofs\<close>

text \<open>
  What the next call of the driver answers, and the database right after a call: the
  outcome is consumed and the statement is logged, whatever the outcome was.
\<close>

definition outcome :: "DB \<Rightarrow> error option" where
  "outcome db = (case faults db of [] \<Rightarrow> None | f # fs \<Rightarrow> map_option DriverError f)"

definition after_call :: "stmt \<Rightarrow> DB \<Rightarrow> DB" where
  "after_call s db = db\<lparr>faults := tl (faults db), sent := sent db @ [s]\<rparr>"

text \<open>The loaded record after the patch of lines 221 to 241, field by field.\<close>

definition patched :: "TodoUpdate \<Rightarrow> Todo \<Rightarrow> Todo" where
  "patched u t =
     \<lparr>ID = ID t, UserID = UserID t,
      Subject = (if Defined (update_Subject u) then Value (update_Subject u) else Subject t),
      Description =
        (if Defined (update_Description u) then Value (update_Description u) else Description t),
      Priority = (if Defined (update_Priority u) then Value (update_Priority u) else Priority t),
      DueDate = (if Defined (update_DueDate u) then Value (update_DueDate u) else DueDate t),
      Completed = (if Defined (update_Completed u) then Value (update_Completed u) else Completed t),
      CreatedAt = CreatedAt t, UpdatedAt = UpdatedAt t\<rparr>"

subsection \<open>The filter builder as the specification words it\<close>

text \<open>
  One clause per set field, in the order ID, owner, priority, due date, completed.  A
  clause either binds a value (the text before and after its \<^verbatim>\<open>$n\<close> placeholder is
  given) or is literal text; \<open>positional\<close> numbers the placeholders from a start index
  and \<open>bound_args\<close> collects the bound values.
\<close>

datatype clause = Bound string string sqlval | Literal string

definition spec_clauses :: "TodoFilter \<Rightarrow> clause list" where
  "spec_clauses f =
     (if Defined (filter_ID f) then [Bound ''id = $'' [] (VUuid (Value (filter_ID f)))] else []) @
     (if Defined (filter_UserID f)
      then [Bound ''user_id = $'' [] (VUuid (Value (filter_UserID f)))] else []) @
     (if Defined (filter_Priority f)
      then [Bound ''priority = $'' [] (VInt (Value (filter_Priority f)))] else []) @
     (if Defined (filter_DueDate f)
      then [case Value (filter_DueDate f) of
              None \<Rightarrow> Literal ''due_date IS NULL''
            | Some t \<Rightarrow> Bound ''due_date::date = $'' ''::date'' (VTime t)]
      else []) @
     (if Defined (filter_Completed f)
      then [Bound ''completed = $'' [] (VBool (Value (filter_Completed f)))] else [])"

fun positional :: "nat \<Rightarrow> clause list \<Rightarrow> string list" where
  "positional n [] = []"
| "positional n (Literal s # cs) = s # positional n cs"
| "positional n (Bound p s v # cs) = (p @ itoa (int n) @ s) # positional (Suc n) cs"

fun bound_args :: "clause list \<Rightarrow> sqlval list" where
  "bound_args [] = []"
| "bound_args (Literal s # cs) = bound_args cs"
| "bound_args (Bound p s v # cs) = v # bound_args cs"

text \<open>The rows a filter selects, said directly on the fields of the row.\<close>

definition row_matches :: "TodoFilter \<Rightarrow> Todo \<Rightarrow> bool" where
  "row_matches f r =
     ((Defined (filter_ID f) \<longrightarrow> ID r = Value (filter_ID f)) \<and>
      (Defined (filter_UserID f) \<longrightarrow> UserID r = Value (filter_UserID f)) \<and>
      (Defined (filter_Priority f) \<longrightarrow> Priority r = Value (filter_Priority f)) \<and>
      (Defined (filter_DueDate f) \<longrightarrow>
         (case Value (filter_DueDate f) of
            None \<Rightarrow> DueDate r = None
          | Some t \<Rightarrow>
              (case DueDate r of None \<Rightarrow> False | Some d \<Rightarrow> calendar_day d = calendar_day t))) \<and>
      (Defined (filter_Completed f) \<longrightarrow> Completed r = Value (filter_Completed f)))"

subsection \<open>A small database for the examples\<close>

definition unset :: "'a \<Rightarrow> 'a FieldFilter" where
  "unset v = \<lparr>Defined = False, Value = v\<rparr>"

definition set_to :: "'a \<Rightarrow> 'a FieldFilter" where
  "set_to v = \<lparr>Defined = True, Value = v\<rparr>"

definition milk :: Todo where
  "milk = \<lparr>ID = 1, UserID = 7, Subject = ''Buy milk'', Description = ''two litres'',
           Priority = 1, DueDate = None, Completed = False, CreatedAt = 10, UpdatedAt = 10\<rparr>"

definition taxes :: Todo where
  "taxes = \<lparr>ID = 2, UserID = 8, Subject = ''File taxes'', Description = ''before April'',
            Priority = 2, DueDate = Some 86400000005, Completed = False,
            CreatedAt = 20, UpdatedAt = 20\<rparr>"

definition two_rows :: DB where
  "two_rows = \<lparr>todo_table = [milk, taxes], tx_table = None, faults = [], sent = []\<rparr>"

definition alice :: Context where
  "alice = \<lparr>ctx_UserID = Some 7\<rparr>"

definition bob :: Context where
  "bob = \<lparr>ctx_UserID = Some 8\<rparr>"

definition empty_patch :: TodoUpdate where
  "empty_patch = \<lparr>update_Subject = unset [], update_Description = unset [],
                  update_Priority = unset 0, update_DueDate = unset None,
                  update_Completed = unset False\<rparr>"

definition complete_patch :: TodoUpdate where
  "complete_patch = empty_patch\<lparr>update_Completed := set_to True\<rparr>"

definition no_filter :: TodoFilter where
  "no_filter = \<lparr>filter_ID = unset 0, filter_UserID = unset 0, filter_Priority = unset 0,
                filter_DueDate = unset None, filter_Completed = unset False,
                Limit = 0, Offset = 0\<rparr>"

definition due_filter :: "time \<Rightarrow> TodoFilter" where
  "due_filter t = no_filter\<lparr>filter_DueDate := set_to (Some t)\<rparr>"

definition owner_filter :: "uuid \<Rightarrow> TodoFilter" where
  "owner_filter u = no_filter\<lparr>filter_UserID := set_to u\<rparr>"

definition bread :: Todo where
  "bread = \<lparr>ID = 1, UserID = 8, Subject = ''Buy bread'', Description = ''rye'',
            Priority = 3, DueDate = None, Completed = False, CreatedAt = 1, UpdatedAt = 2\<rparr>"

definition busy_filter :: TodoFilter where
  "busy_filter = no_filter\<lparr>filter_ID := set_to 1, filter_DueDate := set_to None,
                            filter_Completed := set_to True, Limit := 10\<rparr>"

declare nat_digits.simps [simp del]

section \<open>Lemmas about the store\<close>

lemma driver_call_eq: "driver_call s db = (outcome db, after_call s db)"
  by (cases "faults db") (simp_all add: driver_call_def outcome_def after_call_def)

lemma after_call_fields [simp]:
  "todo_table (after_call s db) = todo_table db"
  "tx_table (after_call s db) = tx_table db"
  "sent (after_call s db) = sent db @ [s]"
  "faults (after_call s db) = tl (faults db)"
  by (simp_all add: after_call_def)

lemma after_call_tx [simp]:
  "after_call s (db\<lparr>tx_table := t\<rparr>) = (after_call s db)\<lparr>tx_table := t\<rparr>"
  by (simp add: after_call_def)

lemma undisturbed_Suc:
  "undisturbed (Suc n) db \<Longrightarrow> outcome db = None \<and> undisturbed n (after_call s db)"
  by (cases "faults db") (simp_all add: undisturbed_def outcome_def)

lemma undisturbed_tx [simp]: "undisturbed n (db\<lparr>tx_table := t\<rparr>) = undisturbed n db"
  by (simp add: undisturbed_def)

lemma outcome_tx [simp]: "outcome (db\<lparr>tx_table := t\<rparr>) = outcome db"
  by (simp add: outcome_def)

lemma outcome_not_api [simp]:
  "outcome db \<noteq> Some (APIError c m)" "outcome db \<noteq> Some ErrNoRows" "outcome db \<noteq> Some ErrTxDone"
  "outcome db \<noteq> Some ErrPermission" "outcome db \<noteq> Some (ErrNotFound i)"
  by (auto simp: outcome_def ErrPermission_def Error_def ErrNotFound_def split: list.splits)

lemma undisturbed_2:
  assumes "undisturbed 2 db"
  shows "outcome db = None" "outcome (after_call s db) = None"
proof -
  from assms have u: "undisturbed (Suc (Suc 0)) db" by (simp add: numeral_2_eq_2)
  show "outcome db = None" using undisturbed_Suc[OF u] by simp
  have "undisturbed (Suc 0) (after_call s db)" using undisturbed_Suc[OF u] by simp
  then show "outcome (after_call s db) = None" using undisturbed_Suc by blast
qed

lemma undisturbed_3:
  assumes "undisturbed 3 db"
  shows "outcome db = None" "outcome (after_call s db) = None"
    "outcome (after_call s' (after_call s db)) = None"
proof -
  from assms have u: "undisturbed (Suc (Suc (Suc 0))) db" by (simp add: numeral_3_eq_3)
  show "outcome db = None" using undisturbed_Suc[OF u] by simp
  have u1: "undisturbed (Suc (Suc 0)) (after_call s db)" using undisturbed_Suc[OF u] by simp
  then show "outcome (after_call s db) = None" using undisturbed_Suc by blast
  have "undisturbed (Suc 0) (after_call s' (after_call s db))" using undisturbed_Suc[OF u1] by simp
  then show "outcome (after_call s' (after_call s db)) = None" using undisturbed_Suc by blast
qed

lemmas repo_defs =
  Update_def Delete_def BeginTx_def Commit_def Rollback_def updateTodo_def deleteTodo_def
  getTodoForUpdate_def tx_QueryRowContext_def tx_ExecContext_update_def
  tx_ExecContext_delete_def driver_call_eq

lemma ErrNotFound_neq [simp]:
  "ErrNotFound i \<noteq> ErrPermission" "ErrNotFound i \<noteq> ErrNoRows" "ErrPermission \<noteq> ErrNoRows"
  by (simp_all add: ErrNotFound_def ErrPermission_def Error_def)

lemma apply_update_snd:
  "snd (apply_update u t) =
     (Defined (update_Subject u) \<or> Defined (update_Description u) \<or> Defined (update_Priority u) \<or>
      Defined (update_DueDate u) \<or> Defined (update_Completed u))"
  by (simp add: apply_update_def Let_def split_def)

lemma apply_update_fst: "fst (apply_update u t) = patched u t"
  by (simp add: apply_update_def Let_def split_def patched_def)

lemma apply_update_eq:
  "apply_update u t =
     (patched u t,
      Defined (update_Subject u) \<or> Defined (update_Description u) \<or> Defined (update_Priority u) \<or>
      Defined (update_DueDate u) \<or> Defined (update_Completed u))"
  using apply_update_fst[of u t] apply_update_snd[of u t] by (cases "apply_update u t") simp

lemma find_mem: "find P xs = Some r \<Longrightarrow> r \<in> set xs \<and> P r"
  by (induction xs) (auto split: if_splits)

lemma find_None_iff: "(find P xs = None) = (\<forall>x\<in>set xs. \<not> P x)"
  by (induction xs) auto

lemma find_distinct_ID:
  assumes "distinct (map ID rows)" and "find (\<lambda>r. ID r = i) rows = Some r" and "x \<in> set rows"
  shows "(ID x = i) = (x = r)"
proof -
  have r: "r \<in> set rows" "ID r = i" using find_mem[OF assms(2)] by auto
  have "inj_on ID (set rows)" using assms(1) by (simp add: distinct_map)
  then show ?thesis using r assms(3) by (auto dest: inj_onD)
qed

lemma Update_success_table:
  assumes "find (\<lambda>r. ID r = i) (todo_table db) = Some r"
    and "UserID r = UserIDFromContext ctx"
    and "Defined (update_Subject update) \<or> Defined (update_Description update) \<or>
      Defined (update_Priority update) \<or> Defined (update_DueDate update) \<or>
      Defined (update_Completed update)"
    and "fst (Update ctx now db i update) = None"
  shows "todo_table (snd (Update ctx now db i update)) =
           map (\<lambda>x. if ID x = i
                 then x\<lparr>Subject := Subject (patched update r),
                        Description := Description (patched update r),
                        Priority := Priority (patched update r),
                        DueDate := DueDate (patched update r),
                        Completed := Completed (patched update r),
                        UpdatedAt := now\<rparr>
                 else x) (todo_table db)"
  using assms
  by (simp add: repo_defs apply_update_eq Let_def split: option.splits if_splits)

lemma example_rows [simp]:
  "find (\<lambda>r. ID r = 1) (todo_table two_rows) = Some milk"
  "UserID milk = 7" "ID milk = 1" "ID taxes = 2" "UserID taxes = 8"
  "UserIDFromContext alice = 7" "UserIDFromContext bob = 8"
  "undisturbed n two_rows"
  "distinct (map ID (todo_table two_rows))"
  "todo_table two_rows = [milk, taxes]"
  "sent two_rows = []"
  by (simp_all add: two_rows_def milk_def taxes_def alice_def bob_def UserIDFromContext_def
      undisturbed_def)

lemma example_patches [simp]:
  "Defined (update_Subject empty_patch) = False"
  "Defined (update_Description empty_patch) = False"
  "Defined (update_Priority empty_patch) = False"
  "Defined (update_DueDate empty_patch) = False"
  "Defined (update_Completed empty_patch) = False"
  "Defined (update_Subject complete_patch) = False"
  "Defined (update_Description complete_patch) = False"
  "Defined (update_Priority complete_patch) = False"
  "Defined (update_DueDate complete_patch) = False"
  "Defined (update_Completed complete_patch) = True"
  "Value (update_Completed complete_patch) = True"
  by (simp_all add: empty_patch_def complete_patch_def unset_def set_to_def)

lemma undisturbed_1: "undisturbed 1 db \<Longrightarrow> outcome db = None"
  using undisturbed_Suc[of 0 db] by simp

lemma find_absent: "\<forall>r\<in>set rows. ID r \<noteq> i \<Longrightarrow> find (\<lambda>r. ID r = i) rows = None"
  by (simp add: find_None_iff)

section \<open>Update and Delete: ownership, sparse patches, frame\<close>

text \<open>
  Claim C3.  When the record with the given ID exists and its owner is not the caller,
  \<^verbatim>\<open>Update\<close> and \<^verbatim>\<open>Delete\<close> fail and leave the committed rows as they were, whatever
  the store answers.  When the store answers the two calls that are made (BEGIN and
  the locking SELECT), the error is \<^verbatim>\<open>ErrPermission\<close>, no transaction stays open, and
  the statements sent are BEGIN, the locking SELECT and ROLLBACK: no write, no COMMIT.
\<close>

theorem non_owner_denied:
  assumes "find (\<lambda>r. ID r = i) (todo_table db) = Some r"
    and "UserID r \<noteq> UserIDFromContext ctx"
  shows "todo_table (snd (Update ctx now db i update)) = todo_table db \<and>
         todo_table (snd (Delete ctx db i)) = todo_table db \<and>
         fst (Update ctx now db i update) \<noteq> None \<and>
         fst (Delete ctx db i) \<noteq> None \<and>
         (undisturbed 2 db \<longrightarrow>
            fst (Update ctx now db i update) = Some ErrPermission \<and>
            tx_table (snd (Update ctx now db i update)) = None \<and>
            sent (snd (Update ctx now db i update)) =
              sent db @ [StBegin, StSelectForUpdate i, StRollback] \<and>
            fst (Delete ctx db i) = Some ErrPermission \<and>
            tx_table (snd (Delete ctx db i)) = None \<and>
            sent (snd (Delete ctx db i)) =
              sent db @ [StBegin, StSelectForUpdate i, StRollback])"
proof (intro conjI impI)
  show "todo_table (snd (Update ctx now db i update)) = todo_table db"
    using assms by (simp add: repo_defs split: option.splits)
  show "todo_table (snd (Delete ctx db i)) = todo_table db"
    using assms by (simp add: repo_defs split: option.splits)
  show "fst (Update ctx now db i update) \<noteq> None"
    using assms by (simp add: repo_defs split: option.splits)
  show "fst (Delete ctx db i) \<noteq> None"
    using assms by (simp add: repo_defs split: option.splits)
next
  assume calm: "undisturbed 2 db"
  note o = undisturbed_2[OF calm]
  show "fst (Update ctx now db i update) = Some ErrPermission"
    using assms o by (simp add: repo_defs)
  show "tx_table (snd (Update ctx now db i update)) = None"
    using assms o by (simp add: repo_defs)
  show "sent (snd (Update ctx now db i update)) =
          sent db @ [StBegin, StSelectForUpdate i, StRollback]"
    using assms o by (simp add: repo_defs)
  show "fst (Delete ctx db i) = Some ErrPermission"
    using assms o by (simp add: repo_defs)
  show "tx_table (snd (Delete ctx db i)) = None"
    using assms o by (simp add: repo_defs)
  show "sent (snd (Delete ctx db i)) = sent db @ [StBegin, StSelectForUpdate i, StRollback]"
    using assms o by (simp add: repo_defs)
qed

theorem non_owner_denied_witness:
  "fst (Update bob 99 two_rows 1 complete_patch) = Some ErrPermission \<and>
   todo_table (snd (Update bob 99 two_rows 1 complete_patch)) = [milk, taxes] \<and>
   sent (snd (Update bob 99 two_rows 1 complete_patch)) =
     [StBegin, StSelectForUpdate 1, StRollback] \<and>
   fst (Delete bob two_rows 1) = Some ErrPermission \<and>
   todo_table (snd (Delete bob two_rows 1)) = [milk, taxes]"
  using non_owner_denied [of 1 two_rows milk bob 99 complete_patch]
  by simp

text \<open>
  Claim C4.  When the record exists and is the caller's, \<^verbatim>\<open>Update\<close> with all five
  fields of the patch unset leaves the committed rows (every field of every row, the
  update time included) unchanged.  Once BEGIN, the locking SELECT and COMMIT have
  gone through it returns nil, and these three are the only statements sent: there
  is no UPDATE.
\<close>

theorem unset_patch_commits:
  assumes "find (\<lambda>r. ID r = i) (todo_table db) = Some r"
    and "UserID r = UserIDFromContext ctx"
    and "\<not> Defined (update_Subject update)" "\<not> Defined (update_Description update)"
      "\<not> Defined (update_Priority update)" "\<not> Defined (update_DueDate update)"
      "\<not> Defined (update_Completed update)"
  shows "todo_table (snd (Update ctx now db i update)) = todo_table db \<and>
         (undisturbed 3 db \<longrightarrow>
            fst (Update ctx now db i update) = None \<and>
            sent (snd (Update ctx now db i update)) =
              sent db @ [StBegin, StSelectForUpdate i, StCommit])"
proof (intro conjI impI)
  show "todo_table (snd (Update ctx now db i update)) = todo_table db"
    using assms by (simp add: repo_defs apply_update_eq split: option.splits)
next
  assume calm: "undisturbed 3 db"
  note o = undisturbed_3[OF calm]
  show "fst (Update ctx now db i update) = None"
    using assms o by (simp add: repo_defs apply_update_eq)
  show "sent (snd (Update ctx now db i update)) =
          sent db @ [StBegin, StSelectForUpdate i, StCommit]"
    using assms o by (simp add: repo_defs apply_update_eq)
qed

theorem unset_patch_commits_witness:
  "fst (Update alice 99 two_rows 1 empty_patch) = None \<and>
   todo_table (snd (Update alice 99 two_rows 1 empty_patch)) = [milk, taxes] \<and>
   sent (snd (Update alice 99 two_rows 1 empty_patch)) =
     [StBegin, StSelectForUpdate 1, StCommit]"
  using unset_patch_commits [of 1 two_rows milk alice empty_patch 99]
  by simp

text \<open>
  Claim C5.  With distinct IDs in the table, a record of the caller's and a patch with
  at least one field set, an \<^verbatim>\<open>Update\<close> that returns nil leaves every other row as it
  was and replaces the record by one with the same ID, owner and creation time, the
  update time read from the clock, and each of the five patchable fields equal to the
  patch's value when the field is set and to the old value when it is not.
\<close>

theorem update_sets_exactly:
  assumes "distinct (map ID (todo_table db))"
    and "find (\<lambda>r. ID r = i) (todo_table db) = Some r"
    and "UserID r = UserIDFromContext ctx"
    and "Defined (update_Subject update) \<or> Defined (update_Description update) \<or>
      Defined (update_Priority update) \<or> Defined (update_DueDate update) \<or>
      Defined (update_Completed update)"
    and "fst (Update ctx now db i update) = None"
  shows "todo_table (snd (Update ctx now db i update)) =
           map (\<lambda>x. if x = r then
              \<lparr>ID = ID r, UserID = UserID r,
      Subject = (if Defined (update_Subject update) then Value (update_Subject update) else Subject r),
      Description = (if Defined (update_Description update) then Value (update_Description update) else Description r),
      Priority = (if Defined (update_Priority update) then Value (update_Priority update) else Priority r),
      DueDate = (if Defined (update_DueDate update) then Value (update_DueDate update) else DueDate r),
      Completed = (if Defined (update_Completed update) then Value (update_Completed update) else Completed r),
      CreatedAt = CreatedAt r, UpdatedAt = now\<rparr> else x) (todo_table db)"
proof -
  have "todo_table (snd (Update ctx now db i update)) =
           map (\<lambda>x. if ID x = i
                 then x\<lparr>Subject := Subject (patched update r),
                        Description := Description (patched update r),
                        Priority := Priority (patched update r),
                        DueDate := DueDate (patched update r),
                        Completed := Completed (patched update r),
                        UpdatedAt := now\<rparr>
                 else x) (todo_table db)"
    by (rule Update_success_table[OF assms(2-5)])
  also have "\<dots> = map (\<lambda>x. if x = r then
              \<lparr>ID = ID r, UserID = UserID r,
      Subject = (if Defined (update_Subject update) then Value (update_Subject update) else Subject r),
      Description = (if Defined (update_Description update) then Value (update_Description update) else Description r),
      Priority = (if Defined (update_Priority update) then Value (update_Priority update) else Priority r),
      DueDate = (if Defined (update_DueDate update) then Value (update_DueDate update) else DueDate r),
      Completed = (if Defined (update_Completed update) then Value (update_Completed update) else Completed r),
      CreatedAt = CreatedAt r, UpdatedAt = now\<rparr> else x) (todo_table db)"
  proof (rule map_cong[OF refl])
    fix x assume "x \<in> set (todo_table db)"
    then have e: "(ID x = i) = (x = r)" by (rule find_distinct_ID[OF assms(1,2)])
    show "(if ID x = i
                 then x\<lparr>Subject := Subject (patched update r),
                        Description := Description (patched update r),
                        Priority := Priority (patched update r),
                        DueDate := DueDate (patched update r),
                        Completed := Completed (patched update r),
                        UpdatedAt := now\<rparr>
                 else x) = (if x = r then
              \<lparr>ID = ID r, UserID = UserID r,
      Subject = (if Defined (update_Subject update) then Value (update_Subject update) else Subject r),
      Description = (if Defined (update_Description update) then Value (update_Description update) else Description r),
      Priority = (if Defined (update_Priority update) then Value (update_Priority update) else Priority r),
      DueDate = (if Defined (update_DueDate update) then Value (update_DueDate update) else DueDate r),
      Completed = (if Defined (update_Completed update) then Value (update_Completed update) else Completed r),
      CreatedAt = CreatedAt r, UpdatedAt = now\<rparr> else x)"
      unfolding e by (simp add: patched_def)
  qed
  finally show ?thesis .
qed

lemma Update_complete_ok: "fst (Update alice 99 two_rows 1 complete_patch) = None"
  by (simp add: repo_defs apply_update_eq outcome_def two_rows_def)

theorem update_sets_exactly_witness:
  "todo_table (snd (Update alice 99 two_rows 1 complete_patch)) =
     [milk\<lparr>Completed := True, UpdatedAt := 99\<rparr>, taxes]"
  using update_sets_exactly [of two_rows 1 milk alice complete_patch 99] Update_complete_ok
  by (simp add: milk_def taxes_def)

text \<open>
  Claim C6.  When no row has the given ID, \<^verbatim>\<open>Update\<close> and \<^verbatim>\<open>Delete\<close> do not depend on
  the caller at all (result and database are the same for any two contexts, whatever
  the store answers), they leave the committed rows alone, and once BEGIN and the
  locking SELECT have gone through they return \<^verbatim>\<open>ErrNotFound\<close> of that ID.  The owner
  is compared only with a row that the locking SELECT has returned: whenever
  \<^verbatim>\<open>ErrPermission\<close> is the result, the row exists with another owner and the
  statements sent are BEGIN, the locking SELECT, ROLLBACK.
\<close>

theorem not_found_precedence:
  "((\<forall>r\<in>set (todo_table db). ID r \<noteq> i) \<longrightarrow>
      Update ctx now db i update = Update ctx' now db i update \<and>
      Delete ctx db i = Delete ctx' db i \<and>
      todo_table (snd (Update ctx now db i update)) = todo_table db \<and>
      todo_table (snd (Delete ctx db i)) = todo_table db \<and>
      (undisturbed 2 db \<longrightarrow>
         fst (Update ctx now db i update) = Some (ErrNotFound i) \<and>
         fst (Delete ctx db i) = Some (ErrNotFound i))) \<and>
   (fst (Update ctx now db i update) = Some ErrPermission \<longrightarrow>
      (\<exists>r. find (\<lambda>r. ID r = i) (todo_table db) = Some r \<and> UserID r \<noteq> UserIDFromContext ctx) \<and>
      sent (snd (Update ctx now db i update)) =
        sent db @ [StBegin, StSelectForUpdate i, StRollback]) \<and>
   (fst (Delete ctx db i) = Some ErrPermission \<longrightarrow>
      (\<exists>r. find (\<lambda>r. ID r = i) (todo_table db) = Some r \<and> UserID r \<noteq> UserIDFromContext ctx) \<and>
      sent (snd (Delete ctx db i)) = sent db @ [StBegin, StSelectForUpdate i, StRollback])"
proof (intro conjI impI)
  assume a: "\<forall>r\<in>set (todo_table db). ID r \<noteq> i"
  note n = find_absent[OF a]
  show "Update ctx now db i update = Update ctx' now db i update"
    using n by (simp add: repo_defs split: option.splits)
  show "Delete ctx db i = Delete ctx' db i"
    using n by (simp add: repo_defs split: option.splits)
  show "todo_table (snd (Update ctx now db i update)) = todo_table db"
    using n by (simp add: repo_defs split: option.splits)
  show "todo_table (snd (Delete ctx db i)) = todo_table db"
    using n by (simp add: repo_defs split: option.splits)
  assume u: "undisturbed 2 db"
  show "fst (Update ctx now db i update) = Some (ErrNotFound i)"
    using n undisturbed_2[OF u] by (simp add: repo_defs)
  show "fst (Delete ctx db i) = Some (ErrNotFound i)"
    using n undisturbed_2[OF u] by (simp add: repo_defs)
next
  assume p: "fst (Update ctx now db i update) = Some ErrPermission"
  show "\<exists>r. find (\<lambda>r. ID r = i) (todo_table db) = Some r \<and> UserID r \<noteq> UserIDFromContext ctx"
    using p by (auto simp add: repo_defs apply_update_eq Let_def split: option.splits if_splits)
  show "sent (snd (Update ctx now db i update)) = sent db @ [StBegin, StSelectForUpdate i, StRollback]"
    using p by (auto simp add: repo_defs apply_update_eq Let_def split: option.splits if_splits)
next
  assume p: "fst (Delete ctx db i) = Some ErrPermission"
  show "\<exists>r. find (\<lambda>r. ID r = i) (todo_table db) = Some r \<and> UserID r \<noteq> UserIDFromContext ctx"
    using p by (auto simp add: repo_defs split: option.splits if_splits)
  show "sent (snd (Delete ctx db i)) = sent db @ [StBegin, StSelectForUpdate i, StRollback]"
    using p by (auto simp add: repo_defs split: option.splits if_splits)
qed

theorem not_found_precedence_witness:
  "Update alice 99 two_rows 3 complete_patch = Update bob 99 two_rows 3 complete_patch \<and>
   Delete alice two_rows 3 = Delete bob two_rows 3 \<and>
   fst (Update alice 99 two_rows 3 complete_patch) = Some (ErrNotFound 3) \<and>
   fst (Delete alice two_rows 3) = Some (ErrNotFound 3) \<and>
   todo_table (snd (Update alice 99 two_rows 3 complete_patch)) = todo_table two_rows \<and>
   sent (snd (Update bob 99 two_rows 1 complete_patch)) =
     sent two_rows @ [StBegin, StSelectForUpdate 1, StRollback] \<and>
   sent (snd (Delete bob two_rows 1)) =
     sent two_rows @ [StBegin, StSelectForUpdate 1, StRollback]"
proof -
  have absent: "\<forall>r\<in>set (todo_table two_rows). ID r \<noteq> 3"
    by simp
  have calm: "undisturbed 2 two_rows"
    by simp
  have u: "fst (Update bob 99 two_rows 1 complete_patch) = Some ErrPermission"
    by (simp add: repo_defs outcome_def two_rows_def)
  have d: "fst (Delete bob two_rows 1) = Some ErrPermission"
    by (simp add: repo_defs outcome_def two_rows_def)
  show ?thesis
    using not_found_precedence [of two_rows 3 alice 99 complete_patch bob]
      not_found_precedence [of two_rows 1 bob 99 complete_patch bob] absent calm u d
    by blast
qed

section \<open>Get\<close>

text \<open>
  Claim C8.  With the SELECT going through, \<^verbatim>\<open>Get\<close> returns \<^verbatim>\<open>ErrNotFound\<close> of the ID
  exactly when no row has that ID; when a row has it (IDs being distinct) the result
  is that row with its nine fields; a failure of the store is returned as it is and
  is not \<^verbatim>\<open>ErrNotFound\<close>.  \<^verbatim>\<open>Get\<close> sends one SELECT and changes no row.
\<close>

theorem Get_result:
  "(undisturbed 1 db \<longrightarrow>
      (fst (Get ctx db i) = Inl (ErrNotFound i)) = (\<forall>r\<in>set (todo_table db). ID r \<noteq> i)) \<and>
   (undisturbed 1 db \<and> distinct (map ID (todo_table db)) \<and> r \<in> set (todo_table db) \<and> ID r = i \<longrightarrow>
      fst (Get ctx db i) =
        Inr \<lparr>ID = ID r, UserID = UserID r, Subject = Subject r, Description = Description r,
             Priority = Priority r, DueDate = DueDate r, Completed = Completed r,
             CreatedAt = CreatedAt r, UpdatedAt = UpdatedAt r\<rparr>) \<and>
   (faults db = Some m # fs \<longrightarrow>
      fst (Get ctx db i) = Inl (DriverError m) \<and> DriverError m \<noteq> ErrNotFound i) \<and>
   todo_table (snd (Get ctx db i)) = todo_table db \<and>
   sent (snd (Get ctx db i)) = sent db @ [StSelectById i]"
proof (intro conjI impI)
  assume u: "undisturbed 1 db"
  show "(fst (Get ctx db i) = Inl (ErrNotFound i)) = (\<forall>r\<in>set (todo_table db). ID r \<noteq> i)"
    using undisturbed_1[OF u] find_None_iff[of "\<lambda>r. ID r = i" "todo_table db"]
    by (auto simp add: Get_def QueryRowContext_def driver_call_eq split: option.splits)
next
  assume a: "undisturbed 1 db \<and> distinct (map ID (todo_table db)) \<and> r \<in> set (todo_table db) \<and> ID r = i"
  then have "find (\<lambda>x. ID x = i) (todo_table db) \<noteq> None"
    by (auto simp add: find_None_iff)
  then obtain x where x: "find (\<lambda>x. ID x = i) (todo_table db) = Some x" by auto
  have "x = r" using find_distinct_ID[of "todo_table db" i x r] a x by simp
  then show "fst (Get ctx db i) =
        Inr \<lparr>ID = ID r, UserID = UserID r, Subject = Subject r, Description = Description r,
             Priority = Priority r, DueDate = DueDate r, Completed = Completed r,
             CreatedAt = CreatedAt r, UpdatedAt = UpdatedAt r\<rparr>"
    using x a undisturbed_1[of db]
    by (simp add: Get_def QueryRowContext_def driver_call_eq)
next
  assume f: "faults db = Some m # fs"
  then show "fst (Get ctx db i) = Inl (DriverError m)"
    by (simp add: Get_def QueryRowContext_def driver_call_eq outcome_def)
  show "DriverError m \<noteq> ErrNotFound i" by (simp add: ErrNotFound_def)
next
  show "todo_table (snd (Get ctx db i)) = todo_table db"
    by (simp add: Get_def QueryRowContext_def driver_call_eq split: option.splits)
  show "sent (snd (Get ctx db i)) = sent db @ [StSelectById i]"
    by (simp add: Get_def QueryRowContext_def driver_call_eq split: option.splits)
qed

theorem Get_result_witness:
  "fst (Get bob two_rows 3) = Inl (ErrNotFound 3) \<and>
   fst (Get bob two_rows 2) = Inr taxes \<and>
   fst (Get bob (two_rows\<lparr>faults := [Some ''connection reset'']\<rparr>) 2) =
     Inl (DriverError ''connection reset'')"
  using Get_result [of two_rows bob 3 milk "''x''" "[]"]
    Get_result [of two_rows bob 2 taxes "''x''" "[]"]
    Get_result [of "two_rows\<lparr>faults := [Some ''connection reset'']\<rparr>" bob 2 taxes
      "''connection reset''" "[]"]
  by (simp add: taxes_def milk_def)

section \<open>Create\<close>

text \<open>
  Claim C9.  \<^verbatim>\<open>Create\<close> stamps the record with the generated ID, the caller's identity
  and the clock reading as both creation and update time, whatever ID, owner and
  times the input carried, and sends exactly one statement, the INSERT of the stamped
  record: no row is read and no owner is compared.  When the INSERT goes through and
  the generated ID is not yet stored, the call returns nil and the table is the old
  one followed by the stamped record; when the call fails the table is unchanged; the
  IDs of the table stay distinct in every case.
\<close>

theorem Create_stamps:
  "(let stamped = \<lparr>ID = new_id, UserID = UserIDFromContext ctx, Subject = Subject todo,
                    Description = Description todo, Priority = Priority todo,
                    DueDate = DueDate todo, Completed = Completed todo,
                    CreatedAt = now, UpdatedAt = now\<rparr>
    in snd (fst (Create ctx new_id now db todo)) = stamped \<and>
       sent (snd (Create ctx new_id now db todo)) = sent db @ [StInsert stamped] \<and>
       Create ctx new_id now db (todo\<lparr>ID := a, UserID := b, CreatedAt := c, UpdatedAt := d\<rparr>) =
         Create ctx new_id now db todo \<and>
       (undisturbed 1 db \<and> new_id \<notin> set (map ID (todo_table db)) \<longrightarrow>
          fst (fst (Create ctx new_id now db todo)) = None \<and>
          todo_table (snd (Create ctx new_id now db todo)) = todo_table db @ [stamped]) \<and>
       (fst (fst (Create ctx new_id now db todo)) \<noteq> None \<longrightarrow>
          todo_table (snd (Create ctx new_id now db todo)) = todo_table db) \<and>
       (distinct (map ID (todo_table db)) \<longrightarrow>
          distinct (map ID (todo_table (snd (Create ctx new_id now db todo))))))"
  using undisturbed_1[of db]
  by (auto simp add: Create_def ExecContext_insert_def driver_call_eq Let_def split: option.splits)

theorem Create_stamps_witness:
  "snd (fst (Create alice 5 30 two_rows bread)) =
     bread\<lparr>ID := 5, UserID := 7, CreatedAt := 30, UpdatedAt := 30\<rparr> \<and>
   fst (fst (Create alice 5 30 two_rows bread)) = None \<and>
   todo_table (snd (Create alice 5 30 two_rows bread)) =
     [milk, taxes, bread\<lparr>ID := 5, UserID := 7, CreatedAt := 30, UpdatedAt := 30\<rparr>] \<and>
   sent (snd (Create alice 5 30 two_rows bread)) =
     [StInsert (bread\<lparr>ID := 5, UserID := 7, CreatedAt := 30, UpdatedAt := 30\<rparr>)]"
  using Create_stamps [of 5 alice bread 30 two_rows]
  by (simp add: Let_def bread_def)

section \<open>GetAll\<close>

text \<open>
  Claim C7.  The conjuncts that \<^verbatim>\<open>GetAll\<close> builds are \<^verbatim>\<open>TRUE\<close> followed by the clauses of
  the set fields in the order ID, owner, priority, due date, completed, one per set
  field and none for an unset one (so their number is one more than the number of set
  fields); a due date set to nil gives \<^verbatim>\<open>due_date IS NULL\<close> and binds nothing, every
  other clause carries the next placeholder number, counted from 1, and its value is
  the next argument.  The LIMIT and OFFSET pieces are present exactly when the bound
  is greater than zero.
\<close>

theorem builder_refines:
  "(case GetAll_build f of
      (wheres, args, limit, offset) \<Rightarrow>
        map render_cond wheres = ''TRUE'' # positional 1 (spec_clauses f) \<and>
        args = bound_args (spec_clauses f) \<and>
        length wheres =
          Suc (length (filter (\<lambda>b. b) [Defined (filter_ID f), Defined (filter_UserID f),
                 Defined (filter_Priority f), Defined (filter_DueDate f),
                 Defined (filter_Completed f)])) \<and>
        render_limit limit = (if Limit f > 0 then '' LIMIT '' @ itoa (Limit f) @ '' '' else []) \<and>
        render_offset offset =
          (if Offset f > 0 then '' OFFSET '' @ itoa (Offset f) @ '' '' else []))"
  by (simp add: GetAll_build_def spec_clauses_def Let_def split: option.splits)

theorem builder_refines_witness:
  "map render_cond (fst (GetAll_build busy_filter)) =
     [''TRUE'', ''id = $1'', ''due_date IS NULL'', ''completed = $2''] \<and>
   fst (snd (GetAll_build busy_filter)) = [VUuid 1, VBool True] \<and>
   render_limit (fst (snd (snd (GetAll_build busy_filter)))) = '' LIMIT 10 '' \<and>
   render_offset (snd (snd (snd (GetAll_build busy_filter)))) = []"
  using builder_refines [of busy_filter]
  by (simp add: split_def spec_clauses_def busy_filter_def no_filter_def set_to_def unset_def
      itoa_def nat_digits.simps hex_digit_def)

lemma GetAll_build_sem:
  "list_all (cond_bound (fst (snd (GetAll_build f)))) (fst (GetAll_build f)) \<and>
   list_all (holds (fst (snd (GetAll_build f))) r) (fst (GetAll_build f)) = row_matches f r"
  by (cases "Defined (filter_ID f)"; cases "Defined (filter_UserID f)";
      cases "Defined (filter_Priority f)"; cases "Defined (filter_DueDate f)";
      cases "Defined (filter_Completed f)"; cases "Value (filter_DueDate f)"; cases "DueDate r")
     (simp_all add: GetAll_build_def row_matches_def param_def sql_eq_def)

lemma GetAll_build_pagination:
  "snd (snd (GetAll_build f)) =
     (if Limit f > 0 then Some (Limit f) else None, if Offset f > 0 then Some (Offset f) else None)"
  by (simp add: GetAll_build_def Let_def split_def)

lemma GetAll_sent:
  "sent (snd (GetAll ctx db f)) =
     sent db @ [StSelectWhere (fst (GetAll_build f)) col_description
                  (fst (snd (snd (GetAll_build f)))) (snd (snd (snd (GetAll_build f))))
                  (fst (snd (GetAll_build f)))] \<and>
   todo_table (snd (GetAll ctx db f)) = todo_table db"
  by (cases "GetAll_build f") (simp add: GetAll_def QueryContext_def driver_call_eq split: option.splits)

lemma GetAll_outcome:
  "fst (GetAll ctx db f) =
     (case outcome db of
        Some e \<Rightarrow> Inl e
      | None \<Rightarrow>
          Inr (apply_limit (if Limit f > 0 then Some (Limit f) else None)
                (apply_offset (if Offset f > 0 then Some (Offset f) else None)
                  (sort_key Description (filter (row_matches f) (todo_table db))))))"
proof -
  obtain wheres args limit offset where b: "GetAll_build f = (wheres, args, limit, offset)"
    by (cases "GetAll_build f") auto
  have bound: "list_all (cond_bound args) wheres"
    and sem: "\<And>r. list_all (holds args r) wheres = row_matches f r"
    using GetAll_build_sem[of f] b by simp_all
  have pag: "limit = (if Limit f > 0 then Some (Limit f) else None)"
    "offset = (if Offset f > 0 then Some (Offset f) else None)"
    using GetAll_build_pagination[of f] b by simp_all
  show ?thesis
    using bound
    by (simp add: GetAll_def QueryContext_def driver_call_eq b sem pag split: option.splits)
qed

lemma GetAll_sem:
  assumes "undisturbed 1 db"
  shows "fst (GetAll ctx db f) =
     Inr (apply_limit (if Limit f > 0 then Some (Limit f) else None)
           (apply_offset (if Offset f > 0 then Some (Offset f) else None)
             (sort_key Description (filter (row_matches f) (todo_table db)))))"
  using undisturbed_1[OF assms] by (simp add: GetAll_outcome)

lemma paginate_subset:
  "set (apply_limit l (apply_offset off rows)) \<subseteq> set rows"
proof -
  have "set (apply_limit l ys) \<subseteq> set ys" for ys :: "'a list"
    by (cases l) (auto dest: in_set_takeD)
  moreover have "set (apply_offset off rows) \<subseteq> set rows"
    by (cases off) (auto dest: in_set_dropD)
  ultimately show ?thesis by blast
qed

lemma GetAll_rows_match:
  assumes "fst (GetAll ctx db f) = Inr rows" and "r \<in> set rows"
  shows "r \<in> set (todo_table db) \<and> row_matches f r"
proof -
  from assms(1) have "rows = apply_limit (if Limit f > 0 then Some (Limit f) else None)
                (apply_offset (if Offset f > 0 then Some (Offset f) else None)
                  (sort_key Description (filter (row_matches f) (todo_table db))))"
    by (cases "outcome db") (simp_all add: GetAll_outcome split del: if_split)
  then have "set rows \<subseteq> set (sort_key Description (filter (row_matches f) (todo_table db)))"
    using paginate_subset by metis
  then show ?thesis using assms(2) by auto
qed

lemma calendar_day_offset:
  "0 \<le> s \<Longrightarrow> s < usec_per_day \<Longrightarrow> calendar_day (k * usec_per_day + s) = k"
  by (simp add: calendar_day_def usec_per_day_def div_pos_pos_trivial)

text \<open>
  Claim C10.  For a filter whose due date is set to an instant \<open>t\<close>, and with the SELECT
  going through, \<^verbatim>\<open>GetAll\<close> returns the rows that satisfy the other set fields and
  have a due date on the calendar day of \<open>t\<close>, ordered and paginated as always; two
  instants of the same day are on the same calendar day whatever their time of day.
\<close>

theorem due_date_by_calendar_day:
  assumes "Defined (filter_DueDate f)" and "Value (filter_DueDate f) = Some t"
    and "undisturbed 1 db"
  shows "fst (GetAll ctx db f) =
     Inr (apply_limit (if Limit f > 0 then Some (Limit f) else None)
           (apply_offset (if Offset f > 0 then Some (Offset f) else None)
             (sort_key Description
               (filter (\<lambda>r. (Defined (filter_ID f) \<longrightarrow> ID r = Value (filter_ID f)) \<and>
                            (Defined (filter_UserID f) \<longrightarrow> UserID r = Value (filter_UserID f)) \<and>
                            (Defined (filter_Priority f) \<longrightarrow> Priority r = Value (filter_Priority f)) \<and>
                            (Defined (filter_Completed f) \<longrightarrow> Completed r = Value (filter_Completed f)) \<and>
                            (\<exists>d. DueDate r = Some d \<and> calendar_day d = calendar_day t))
                  (todo_table db))))) \<and>
     (\<forall>k s s'. 0 \<le> s \<and> s < usec_per_day \<and> 0 \<le> s' \<and> s' < usec_per_day \<longrightarrow>
        calendar_day (k * usec_per_day + s) = calendar_day (k * usec_per_day + s'))"
proof -
  have "row_matches f = (\<lambda>r. (Defined (filter_ID f) \<longrightarrow> ID r = Value (filter_ID f)) \<and>
                            (Defined (filter_UserID f) \<longrightarrow> UserID r = Value (filter_UserID f)) \<and>
                            (Defined (filter_Priority f) \<longrightarrow> Priority r = Value (filter_Priority f)) \<and>
                            (Defined (filter_Completed f) \<longrightarrow> Completed r = Value (filter_Completed f)) \<and>
                            (\<exists>d. DueDate r = Some d \<and> calendar_day d = calendar_day t))"
    using assms(1,2) by (auto simp add: row_matches_def fun_eq_iff split: option.splits)
  then show ?thesis
    using GetAll_sem[OF assms(3), of ctx f] by (simp add: calendar_day_offset)
qed

theorem due_date_by_calendar_day_witness:
  "fst (GetAll alice two_rows (due_filter 172799999999)) = Inr [taxes] \<and>
   DueDate taxes = Some 86400000005 \<and>
   calendar_day 86400000005 = calendar_day 172799999999"
  using due_date_by_calendar_day [of "due_filter 172799999999" 172799999999 two_rows alice]
  by (simp add: due_filter_def no_filter_def set_to_def unset_def taxes_def milk_def
      calendar_day_def usec_per_day_def)

text \<open>
  Claim C1 fails on the code.  The statement of \<^verbatim>\<open>GetAll\<close> orders by the column
  \<^verbatim>\<open>description\<close>: on the two example rows it returns the taxes record before the milk
  record, in ascending order of description and descending order of subject.
\<close>

theorem GetAll_order_is_description:
  "fst (GetAll alice two_rows no_filter) = Inr [taxes, milk] \<and>
   map Subject [taxes, milk] = [''File taxes'', ''Buy milk''] \<and>
   \<not> sorted (map Subject [taxes, milk]) \<and>
   sorted (map Description [taxes, milk]) \<and>
   sent (snd (GetAll alice two_rows no_filter)) =
     [StSelectWhere [CondTrue] col_description None None []] \<and>
   select_tail [CondTrue] col_description None None = ''WHERE TRUE ORDER BY description ASC''"
proof -
  have rows: "fst (GetAll alice two_rows no_filter) = Inr [taxes, milk]"
    by (simp add: GetAll_sem row_matches_def no_filter_def unset_def taxes_def milk_def)
  have subjects: "map Subject [taxes, milk] = [''File taxes'', ''Buy milk'']"
    by (simp add: taxes_def milk_def)
  have descriptions: "sorted (map Description [taxes, milk])"
    by (simp add: taxes_def milk_def)
  have stmt: "sent (snd (GetAll alice two_rows no_filter)) =
     [StSelectWhere [CondTrue] col_description None None []]"
    by (simp add: GetAll_sent GetAll_build_def no_filter_def unset_def)
  have tail_text: "select_tail [CondTrue] col_description None None =
     ''WHERE TRUE ORDER BY description ASC''"
    by (simp add: select_tail_def)
  show ?thesis using rows subjects descriptions stmt tail_text by simp
qed

section \<open>Who may read and who may write\<close>

text \<open>
  Claim C2 fails on the code as stated: \<^verbatim>\<open>Get\<close> hands the milk record, owned by
  identity 7, to the caller with identity 8, and \<^verbatim>\<open>GetAll\<close> with no field set returns
  it to that caller as well.
\<close>

theorem reads_ignore_caller_counterexample:
  "fst (Get bob two_rows 1) = Inr milk \<and>
   fst (GetAll bob two_rows no_filter) = Inr [taxes, milk] \<and>
   UserID milk \<noteq> UserIDFromContext bob"
proof -
  have g: "fst (Get bob two_rows 1) = Inr milk"
    by (simp add: Get_def QueryRowContext_def driver_call_eq outcome_def two_rows_def)
  have a: "fst (GetAll bob two_rows no_filter) = Inr [taxes, milk]"
    by (simp add: GetAll_sem row_matches_def no_filter_def unset_def taxes_def milk_def)
  show ?thesis using g a by simp
qed

text \<open>
  Claim C2 as amended.  \<^verbatim>\<open>Update\<close> and \<^verbatim>\<open>Delete\<close> change the committed rows only when
  the row with the given ID exists and its owner is the caller.  \<^verbatim>\<open>Get\<close> and \<^verbatim>\<open>GetAll\<close>
  do not look at the caller: they give the same result to every caller, and \<^verbatim>\<open>GetAll\<close>
  returns only rows of one owner when the owner field of the filter is set to it.
\<close>

theorem owner_only_mutation:
  "(todo_table (snd (Update ctx now db i update)) \<noteq> todo_table db \<longrightarrow>
      (\<exists>r. find (\<lambda>r. ID r = i) (todo_table db) = Some r \<and> UserID r = UserIDFromContext ctx)) \<and>
   (todo_table (snd (Delete ctx db i)) \<noteq> todo_table db \<longrightarrow>
      (\<exists>r. find (\<lambda>r. ID r = i) (todo_table db) = Some r \<and> UserID r = UserIDFromContext ctx)) \<and>
   Get ctx db i = Get ctx' db i \<and>
   GetAll ctx db f = GetAll ctx' db f \<and>
   (Defined (filter_UserID f) \<longrightarrow>
      (\<forall>rows. fst (GetAll ctx db f) = Inr rows \<longrightarrow>
         (\<forall>r\<in>set rows. UserID r = Value (filter_UserID f))))"
proof (intro conjI impI allI ballI)
  assume "todo_table (snd (Update ctx now db i update)) \<noteq> todo_table db"
  then show "\<exists>r. find (\<lambda>r. ID r = i) (todo_table db) = Some r \<and> UserID r = UserIDFromContext ctx"
    by (auto simp add: repo_defs apply_update_eq Let_def split: option.splits if_splits)
next
  assume "todo_table (snd (Delete ctx db i)) \<noteq> todo_table db"
  then show "\<exists>r. find (\<lambda>r. ID r = i) (todo_table db) = Some r \<and> UserID r = UserIDFromContext ctx"
    by (auto simp add: repo_defs split: option.splits if_splits)
next
  show "Get ctx db i = Get ctx' db i" by (simp add: Get_def)
  show "GetAll ctx db f = GetAll ctx' db f" by (simp add: GetAll_def)
next
  fix rows r
  assume d: "Defined (filter_UserID f)" and g: "fst (GetAll ctx db f) = Inr rows" and r: "r \<in> set rows"
  have "row_matches f r" using GetAll_rows_match[OF g r] by simp
  then show "UserID r = Value (filter_UserID f)" using d by (simp add: row_matches_def)
qed

theorem owner_only_mutation_witness:
  "todo_table (snd (Update alice 99 two_rows 1 complete_patch)) =
     [milk\<lparr>Completed := True, UpdatedAt := 99\<rparr>, taxes] \<and>
   todo_table (snd (Delete alice two_rows 1)) = [taxes] \<and>
   find (\<lambda>r. ID r = 1) (todo_table two_rows) = Some milk \<and>
   UserID milk = UserIDFromContext alice \<and>
   Get alice two_rows 1 = Get bob two_rows 1 \<and>
   fst (GetAll bob two_rows (owner_filter 7)) = Inr [milk]"
proof -
  have u: "todo_table (snd (Update alice 99 two_rows 1 complete_patch)) =
     [milk\<lparr>Completed := True, UpdatedAt := 99\<rparr>, taxes]"
    by (simp add: repo_defs apply_update_eq outcome_def two_rows_def patched_def milk_def taxes_def)
  have d: "todo_table (snd (Delete alice two_rows 1)) = [taxes]"
    by (simp add: repo_defs outcome_def two_rows_def milk_def taxes_def)
  have g: "fst (GetAll bob two_rows (owner_filter 7)) = Inr [milk]"
    by (simp add: GetAll_sem row_matches_def owner_filter_def no_filter_def unset_def set_to_def
        taxes_def milk_def)
  show ?thesis
    using owner_only_mutation [of alice 99 two_rows 1 complete_patch bob "owner_filter 7"] u d g
    by simp
qed

end
